theory Spec2Isabelle
  imports Main "HOL-Library.Word"
begin

section \<open>The AmigoChat contract (contracts/AmigoChat.sol)\<close>

text \<open>
  The ledger is the storage of the Solidity contract \<open>AmigoChat\<close>. An \<open>address\<close> is a
  160-bit word and is compared unsigned, a \<open>uint256\<close> is a natural number whose checked
  increment reverts at \<open>2^256 - 1\<close> (Solidity 0.8), a \<open>string\<close> is a list of bytes and
  \<open>bytes(s).length\<close> is its length. A Solidity \<open>mapping\<close> is a total function: a key
  that was never written reads as the zero value of the value type, and two different
  keys never share a slot. The price getters only read the three external feeds and are
  left out; \<open>userMessages\<close> is declared by the contract and never written.
\<close>

type_synonym address = "160 word"
type_synonym bytes32 = "256 word"
type_synonym byte = "8 word"

definition max_uint256 :: nat where
  "max_uint256 = 2 ^ 256 - 1"

record UserProfile =
  username :: string
  ipfsProfilePicHash :: string
  isRegistered :: bool
  registrationTimestamp :: nat
  totalMessagesSent :: nat

record Message =
  sender :: address
  content :: string
  timestamp :: nat
  messageId :: nat

record DirectMessage =
  dm_sender :: address
  dm_receiver :: address
  dm_content :: string
  dm_timestamp :: nat
  isRead :: bool

record AmigoChat =
  owner :: address
  totalUsers :: nat
  totalMessages :: nat
  priceFeedBTCUSD :: address
  priceFeedETHUSD :: address
  priceFeedLINKUSD :: address
  users :: "address \<Rightarrow> UserProfile"
  usernameToAddress :: "string \<Rightarrow> address"
  userMessages :: "address \<Rightarrow> nat list"
  conversations :: "bytes32 \<Rightarrow> DirectMessage list"
  userConversations :: "address \<Rightarrow> address list"
  generalChatMessages :: "Message list"
  registeredUsers :: "address list"

text \<open>The transaction environment a call reads: \<open>msg.sender\<close> and \<open>block.timestamp\<close>.\<close>

record env =
  msg_sender :: address
  block_timestamp :: nat

text \<open>The \<open>require\<close> messages of the contract, and the arithmetic panic of a checked \<open>++\<close>.\<close>

datatype error =
    OnlyOwner
  | MustBeRegistered
  | UsernameEmpty
  | UsernameTooLong
  | MessageEmpty
  | MessageTooLong
  | AlreadyRegistered
  | UsernameTaken
  | ReceiverNotRegistered
  | NewOwnerZero
  | PanicOverflow

datatype event =
    UserRegistered address string string nat
  | UsernameChanged address string string nat
  | MessageSent address string nat nat
  | DirectMessageSent address address string nat

type_synonym 'a result = "error + 'a"

subsection \<open>Constructor\<close>

definition empty_profile :: UserProfile where
  "empty_profile = \<lparr>username = [], ipfsProfilePicHash = [], isRegistered = False,
     registrationTimestamp = 0, totalMessagesSent = 0\<rparr>"

definition constructor :: "env \<Rightarrow> address \<Rightarrow> address \<Rightarrow> address \<Rightarrow> AmigoChat" where
  "constructor e priceFeedBTCUSD' priceFeedETHUSD' priceFeedLINKUSD' =
     \<lparr>owner = msg_sender e,
      totalUsers = 0,
      totalMessages = 0,
      priceFeedBTCUSD = priceFeedBTCUSD',
      priceFeedETHUSD = priceFeedETHUSD',
      priceFeedLINKUSD = priceFeedLINKUSD',
      users = (\<lambda>_. empty_profile),
      usernameToAddress = (\<lambda>_. 0),
      userMessages = (\<lambda>_. []),
      conversations = (\<lambda>_. []),
      userConversations = (\<lambda>_. []),
      generalChatMessages = [],
      registeredUsers = []\<rparr>"

subsection \<open>User management\<close>

text \<open>
  The modifiers run in the order they are written on the function, before its body.
  A parameter that Solidity writes \<open>_username\<close> is written \<open>username'\<close> here.
  A function returns the new storage and the events it emitted, or the error it reverted
  with.
\<close>

definition registerUser ::
  "env \<Rightarrow> string \<Rightarrow> string \<Rightarrow> AmigoChat \<Rightarrow> (AmigoChat \<times> event list) result" where
  "registerUser e username' ipfsProfilePicHash' s =
     (if \<not> length username' > 0 then Inl UsernameEmpty
      else if \<not> length username' \<le> 50 then Inl UsernameTooLong
      else if isRegistered (users s (msg_sender e)) then Inl AlreadyRegistered
      else if \<not> usernameToAddress s username' = 0 then Inl UsernameTaken
      else
        let s1 = s\<lparr>users := (users s)(msg_sender e :=
                     \<lparr>username = username',
                      ipfsProfilePicHash = ipfsProfilePicHash',
                      isRegistered = True,
                      registrationTimestamp = block_timestamp e,
                      totalMessagesSent = 0\<rparr>)\<rparr>;
            s2 = s1\<lparr>usernameToAddress := (usernameToAddress s1)(username' := msg_sender e)\<rparr>;
            s3 = s2\<lparr>registeredUsers := registeredUsers s2 @ [msg_sender e]\<rparr>
        in if totalUsers s3 = max_uint256 then Inl PanicOverflow
           else Inr (s3\<lparr>totalUsers := totalUsers s3 + 1\<rparr>,
                     [UserRegistered (msg_sender e) username' ipfsProfilePicHash'
                        (block_timestamp e)]))"

definition isUsernameAvailable :: "AmigoChat \<Rightarrow> string \<Rightarrow> bool" where
  "isUsernameAvailable s username' = (usernameToAddress s username' = 0)"

definition isUserRegistered :: "AmigoChat \<Rightarrow> address \<Rightarrow> bool" where
  "isUserRegistered s userAddress' = isRegistered (users s userAddress')"

definition changeUsername ::
  "env \<Rightarrow> string \<Rightarrow> AmigoChat \<Rightarrow> (AmigoChat \<times> event list) result" where
  "changeUsername e newUsername' s =
     (if \<not> isRegistered (users s (msg_sender e)) then Inl MustBeRegistered
      else if \<not> length newUsername' > 0 then Inl UsernameEmpty
      else if \<not> length newUsername' \<le> 50 then Inl UsernameTooLong
      else if \<not> usernameToAddress s newUsername' = 0 then Inl UsernameTaken
      else
        let oldUsername = username (users s (msg_sender e));
            s1 = s\<lparr>usernameToAddress := (usernameToAddress s)(oldUsername := 0)\<rparr>;
            s2 = s1\<lparr>users := (users s1)(msg_sender e :=
                     (users s1 (msg_sender e))\<lparr>username := newUsername'\<rparr>)\<rparr>;
            s3 = s2\<lparr>usernameToAddress := (usernameToAddress s2)(newUsername' := msg_sender e)\<rparr>
        in Inr (s3, [UsernameChanged (msg_sender e) oldUsername newUsername'
                       (block_timestamp e)]))"

definition updateProfilePicture ::
  "env \<Rightarrow> string \<Rightarrow> AmigoChat \<Rightarrow> (AmigoChat \<times> event list) result" where
  "updateProfilePicture e ipfsProfilePicHash' s =
     (if \<not> isRegistered (users s (msg_sender e)) then Inl MustBeRegistered
      else Inr (s\<lparr>users := (users s)(msg_sender e :=
                    (users s (msg_sender e))\<lparr>ipfsProfilePicHash := ipfsProfilePicHash'\<rparr>)\<rparr>,
                []))"

definition getUserProfile :: "AmigoChat \<Rightarrow> address \<Rightarrow> UserProfile" where
  "getUserProfile s userAddress' = users s userAddress'"

definition getAllRegisteredUsers :: "AmigoChat \<Rightarrow> address list" where
  "getAllRegisteredUsers s = registeredUsers s"

subsection \<open>Chat\<close>

definition sendMessage ::
  "env \<Rightarrow> string \<Rightarrow> AmigoChat \<Rightarrow> (AmigoChat \<times> event list) result" where
  "sendMessage e content' s =
     (if \<not> isRegistered (users s (msg_sender e)) then Inl MustBeRegistered
      else if \<not> length content' > 0 then Inl MessageEmpty
      else if \<not> length content' \<le> 1000 then Inl MessageTooLong
      else
        let newMessage = \<lparr>sender = msg_sender e, content = content',
                          timestamp = block_timestamp e, messageId = totalMessages s\<rparr>;
            s1 = s\<lparr>generalChatMessages := generalChatMessages s @ [newMessage]\<rparr>
        in if totalMessagesSent (users s1 (msg_sender e)) = max_uint256 then Inl PanicOverflow
           else
             let s2 = s1\<lparr>users := (users s1)(msg_sender e :=
                          (users s1 (msg_sender e))\<lparr>totalMessagesSent :=
                             totalMessagesSent (users s1 (msg_sender e)) + 1\<rparr>)\<rparr>
             in if totalMessages s2 = max_uint256 then Inl PanicOverflow
                else
                  let s3 = s2\<lparr>totalMessages := totalMessages s2 + 1\<rparr>
                  in Inr (s3, [MessageSent (msg_sender e) content' (block_timestamp e)
                                 (totalMessages s3 - 1)]))"

text \<open>
  \<open>isInConversation\<close> copies the partner list of \<open>_user1\<close> to memory and scans it from
  index 0, returning at the first entry equal to \<open>_user2\<close>.
\<close>

primrec scan_partners :: "address list \<Rightarrow> address \<Rightarrow> bool" where
  "scan_partners [] user2' = False"
| "scan_partners (p # ps) user2' = (if p = user2' then True else scan_partners ps user2')"

definition isInConversation :: "AmigoChat \<Rightarrow> address \<Rightarrow> address \<Rightarrow> bool" where
  "isInConversation s user1' user2' =
     (let conversations_user1 = userConversations s user1'
      in scan_partners conversations_user1 user2')"

text \<open>
  \<open>abi.encodePacked\<close> of two addresses is their 20 big-endian bytes each, concatenated.
  \<open>keccak256\<close> is a primitive of the platform: every function that hashes takes it as the
  parameter \<open>keccak256\<close>, and nothing is assumed about it.
\<close>

definition address_bytes :: "address \<Rightarrow> byte list" where
  "address_bytes a = map (\<lambda>i. ucast (drop_bit (8 * i) a)) (rev [0..<20])"

definition encodePacked :: "address \<Rightarrow> address \<Rightarrow> byte list" where
  "encodePacked a b = address_bytes a @ address_bytes b"

definition conversationHash :: "(byte list \<Rightarrow> bytes32) \<Rightarrow> address \<Rightarrow> address \<Rightarrow> bytes32" where
  "conversationHash keccak256 user1' user2' =
     (if user1' < user2' then keccak256 (encodePacked user1' user2')
      else keccak256 (encodePacked user2' user1'))"

definition sendDirectMessage ::
  "(byte list \<Rightarrow> bytes32) \<Rightarrow> env \<Rightarrow> address \<Rightarrow> string \<Rightarrow> AmigoChat
     \<Rightarrow> (AmigoChat \<times> event list) result" where
  "sendDirectMessage keccak256 e receiver' content' s =
     (if \<not> isRegistered (users s (msg_sender e)) then Inl MustBeRegistered
      else if \<not> length content' > 0 then Inl MessageEmpty
      else if \<not> length content' \<le> 1000 then Inl MessageTooLong
      else if \<not> isRegistered (users s receiver') then Inl ReceiverNotRegistered
      else
        let h = conversationHash keccak256 (msg_sender e) receiver';
            newDM = \<lparr>dm_sender = msg_sender e, dm_receiver = receiver',
                     dm_content = content', dm_timestamp = block_timestamp e,
                     isRead = False\<rparr>;
            s1 = s\<lparr>conversations := (conversations s)(h := conversations s h @ [newDM])\<rparr>;
            s3 = (if \<not> isInConversation s1 (msg_sender e) receiver' then
                    let s2 = s1\<lparr>userConversations := (userConversations s1)(msg_sender e :=
                                 userConversations s1 (msg_sender e) @ [receiver'])\<rparr>
                    in s2\<lparr>userConversations := (userConversations s2)(receiver' :=
                            userConversations s2 receiver' @ [msg_sender e])\<rparr>
                  else s1)
        in Inr (s3, [DirectMessageSent (msg_sender e) receiver' content'
                       (block_timestamp e)]))"

definition getGeneralChatMessages :: "AmigoChat \<Rightarrow> Message list" where
  "getGeneralChatMessages s = generalChatMessages s"

definition getConversation ::
  "(byte list \<Rightarrow> bytes32) \<Rightarrow> AmigoChat \<Rightarrow> address \<Rightarrow> address \<Rightarrow> DirectMessage list" where
  "getConversation keccak256 s user1' user2' =
     conversations s (conversationHash keccak256 user1' user2')"

definition getUserConversations :: "AmigoChat \<Rightarrow> address \<Rightarrow> address list" where
  "getUserConversations s user' = userConversations s user'"

subsection \<open>Administration\<close>

definition emergencyStop :: "env \<Rightarrow> AmigoChat \<Rightarrow> (AmigoChat \<times> event list) result" where
  "emergencyStop e s =
     (if \<not> msg_sender e = owner s then Inl OnlyOwner else Inr (s, []))"

definition transferOwnership ::
  "env \<Rightarrow> address \<Rightarrow> AmigoChat \<Rightarrow> (AmigoChat \<times> event list) result" where
  "transferOwnership e newOwner' s =
     (if \<not> msg_sender e = owner s then Inl OnlyOwner
      else if \<not> newOwner' \<noteq> 0 then Inl NewOwnerZero
      else Inr (s\<lparr>owner := newOwner'\<rparr>, []))"

definition updatePriceFeeds ::
  "env \<Rightarrow> address \<Rightarrow> address \<Rightarrow> address \<Rightarrow> AmigoChat \<Rightarrow> (AmigoChat \<times> event list) result" where
  "updatePriceFeeds e priceFeedBTCUSD' priceFeedETHUSD' priceFeedLINKUSD' s =
     (if \<not> msg_sender e = owner s then Inl OnlyOwner
      else Inr (s\<lparr>priceFeedBTCUSD := priceFeedBTCUSD',
                  priceFeedETHUSD := priceFeedETHUSD',
                  priceFeedLINKUSD := priceFeedLINKUSD'\<rparr>, []))"

section \<open>Transactions\<close>

text \<open>
  A transaction is one external call of a state-changing function together with its
  environment. A call that reverts leaves the storage as it was; a call that returns
  commits the storage it computed. A run applies a list of transactions in order.
\<close>

datatype call =
    RegisterUser string string
  | ChangeUsername string
  | UpdateProfilePicture string
  | SendMessage string
  | SendDirectMessage address string
  | EmergencyStop
  | TransferOwnership address
  | UpdatePriceFeeds address address address

type_synonym tx = "env \<times> call"

fun execute ::
  "(byte list \<Rightarrow> bytes32) \<Rightarrow> tx \<Rightarrow> AmigoChat \<Rightarrow> (AmigoChat \<times> event list) result" where
  "execute k (e, RegisterUser u p) s = registerUser e u p s"
| "execute k (e, ChangeUsername u) s = changeUsername e u s"
| "execute k (e, UpdateProfilePicture p) s = updateProfilePicture e p s"
| "execute k (e, SendMessage c) s = sendMessage e c s"
| "execute k (e, SendDirectMessage r c) s = sendDirectMessage k e r c s"
| "execute k (e, EmergencyStop) s = emergencyStop e s"
| "execute k (e, TransferOwnership a) s = transferOwnership e a s"
| "execute k (e, UpdatePriceFeeds a b c) s = updatePriceFeeds e a b c s"

definition transact :: "(byte list \<Rightarrow> bytes32) \<Rightarrow> tx \<Rightarrow> AmigoChat \<Rightarrow> AmigoChat" where
  "transact k t s = (case execute k t s of Inl err \<Rightarrow> s | Inr (s', evs) \<Rightarrow> s')"

primrec run :: "(byte list \<Rightarrow> bytes32) \<Rightarrow> tx list \<Rightarrow> AmigoChat \<Rightarrow> AmigoChat" where
  "run k [] s = s"
| "run k (t # ts) s = run k ts (transact k t s)"

text \<open>The transactions of a run that returned, in order, and what the registrations
  among them claimed.\<close>

primrec successes :: "(byte list \<Rightarrow> bytes32) \<Rightarrow> tx list \<Rightarrow> AmigoChat \<Rightarrow> tx list" where
  "successes k [] s = []"
| "successes k (t # ts) s =
     (case execute k t s of
        Inl err \<Rightarrow> successes k ts s
      | Inr (s', evs) \<Rightarrow> t # successes k ts s')"

fun registered_as :: "tx \<Rightarrow> (address \<times> string) list" where
  "registered_as (e, RegisterUser u p) = [(msg_sender e, u)]"
| "registered_as (e, c) = []"

fun renamed_to :: "tx \<Rightarrow> (address \<times> string) list" where
  "renamed_to (e, ChangeUsername u) = [(msg_sender e, u)]"
| "renamed_to (e, c) = []"

definition registrations ::
  "(byte list \<Rightarrow> bytes32) \<Rightarrow> tx list \<Rightarrow> AmigoChat \<Rightarrow> (address \<times> string) list" where
  "registrations k ts s = concat (map registered_as (successes k ts s))"

definition renames ::
  "(byte list \<Rightarrow> bytes32) \<Rightarrow> tx list \<Rightarrow> AmigoChat \<Rightarrow> (address \<times> string) list" where
  "renames k ts s = concat (map renamed_to (successes k ts s))"

text \<open>A transaction signed by an externally owned account never has the zero address
  as its sender. The contract reads \<open>address(0)\<close> in \<open>usernameToAddress\<close> as "not
  claimed", so the properties of the username index are stated for signed transactions.\<close>

definition signed :: "tx \<Rightarrow> bool" where
  "signed t = (msg_sender (fst t) \<noteq> 0)"

section \<open>Calls, statement by statement\<close>

text \<open>
  The state of a call while it runs: the storage as written so far, the events emitted
  so far, and the error once the call has reverted. Nothing is rolled back here, so this
  is the storage at the very point where a call stops.
\<close>

record exec =
  storage :: AmigoChat
  emitted :: "event list"
  halted :: "error option"

text \<open>
  The statements of the contract. A \<open>require\<close> stops the call with its message when its
  condition fails, \<open>store\<close> is an assignment to storage (or a \<open>push\<close>, or a
  \<open>delete\<close>), \<open>increment\<close> is the checked \<open>++\<close>, \<open>emit\<close> logs an event and
  \<open>if_stmt\<close> is an \<open>if\<close> without \<open>else\<close>. A call that has stopped runs no further
  statement.
\<close>

definition begin_call :: "AmigoChat \<Rightarrow> exec" where
  "begin_call s = \<lparr>storage = s, emitted = [], halted = None\<rparr>"

definition require :: "(AmigoChat \<Rightarrow> bool) \<Rightarrow> error \<Rightarrow> exec \<Rightarrow> exec" where
  "require cond msg x =
     (if halted x \<noteq> None then x
      else if cond (storage x) then x
      else x\<lparr>halted := Some msg\<rparr>)"

definition store :: "(AmigoChat \<Rightarrow> AmigoChat) \<Rightarrow> exec \<Rightarrow> exec" where
  "store f x = (if halted x \<noteq> None then x else x\<lparr>storage := f (storage x)\<rparr>)"

definition increment ::
  "(AmigoChat \<Rightarrow> nat) \<Rightarrow> (nat \<Rightarrow> AmigoChat \<Rightarrow> AmigoChat) \<Rightarrow> exec \<Rightarrow> exec" where
  "increment read write x =
     (if halted x \<noteq> None then x
      else if read (storage x) = max_uint256 then x\<lparr>halted := Some PanicOverflow\<rparr>
      else x\<lparr>storage := write (read (storage x) + 1) (storage x)\<rparr>)"

definition emit :: "(AmigoChat \<Rightarrow> event) \<Rightarrow> exec \<Rightarrow> exec" where
  "emit ev x = (if halted x \<noteq> None then x else x\<lparr>emitted := emitted x @ [ev (storage x)]\<rparr>)"

primrec run_stmts :: "(exec \<Rightarrow> exec) list \<Rightarrow> exec \<Rightarrow> exec" where
  "run_stmts [] x = x"
| "run_stmts (st # sts) x = run_stmts sts (st x)"

definition if_stmt :: "(AmigoChat \<Rightarrow> bool) \<Rightarrow> (exec \<Rightarrow> exec) list \<Rightarrow> exec \<Rightarrow> exec" where
  "if_stmt cond body x =
     (if halted x \<noteq> None then x
      else if cond (storage x) then run_stmts body x
      else x)"

definition commit :: "exec \<Rightarrow> (AmigoChat \<times> event list) result" where
  "commit x = (case halted x of Some err \<Rightarrow> Inl err | None \<Rightarrow> Inr (storage x, emitted x))"

text \<open>The modifiers, and the body of every state-changing function as the list of its
  statements in the order of the source. A local variable is read where the source
  declares it.\<close>

definition onlyRegisteredUser :: "env \<Rightarrow> exec \<Rightarrow> exec" where
  "onlyRegisteredUser e = require (\<lambda>s. isRegistered (users s (msg_sender e))) MustBeRegistered"

definition onlyOwner :: "env \<Rightarrow> exec \<Rightarrow> exec" where
  "onlyOwner e = require (\<lambda>s. msg_sender e = owner s) OnlyOwner"

definition validUsername :: "string \<Rightarrow> (exec \<Rightarrow> exec) list" where
  "validUsername username' =
     [require (\<lambda>s. length username' > 0) UsernameEmpty,
      require (\<lambda>s. length username' \<le> 50) UsernameTooLong]"

definition validMessage :: "string \<Rightarrow> (exec \<Rightarrow> exec) list" where
  "validMessage content' =
     [require (\<lambda>s. length content' > 0) MessageEmpty,
      require (\<lambda>s. length content' \<le> 1000) MessageTooLong]"

definition registerUser_stmts :: "env \<Rightarrow> string \<Rightarrow> string \<Rightarrow> AmigoChat \<Rightarrow> exec" where
  "registerUser_stmts e username' ipfsProfilePicHash' s =
     run_stmts
       (validUsername username' @
        [require (\<lambda>s. \<not> isRegistered (users s (msg_sender e))) AlreadyRegistered,
         require (\<lambda>s. usernameToAddress s username' = 0) UsernameTaken,
         store (\<lambda>s. s\<lparr>users := (users s)(msg_sender e :=
                  \<lparr>username = username',
                   ipfsProfilePicHash = ipfsProfilePicHash',
                   isRegistered = True,
                   registrationTimestamp = block_timestamp e,
                   totalMessagesSent = 0\<rparr>)\<rparr>),
         store (\<lambda>s. s\<lparr>usernameToAddress := (usernameToAddress s)(username' := msg_sender e)\<rparr>),
         store (\<lambda>s. s\<lparr>registeredUsers := registeredUsers s @ [msg_sender e]\<rparr>),
         increment totalUsers (\<lambda>n s. s\<lparr>totalUsers := n\<rparr>),
         emit (\<lambda>s. UserRegistered (msg_sender e) username' ipfsProfilePicHash'
                 (block_timestamp e))])
       (begin_call s)"

definition changeUsername_stmts :: "env \<Rightarrow> string \<Rightarrow> AmigoChat \<Rightarrow> exec" where
  "changeUsername_stmts e newUsername' s =
     (let x = run_stmts
                (onlyRegisteredUser e # validUsername newUsername' @
                 [require (\<lambda>s. usernameToAddress s newUsername' = 0) UsernameTaken])
                (begin_call s);
          oldUsername = username (users (storage x) (msg_sender e))
      in run_stmts
           [store (\<lambda>s. s\<lparr>usernameToAddress := (usernameToAddress s)(oldUsername := 0)\<rparr>),
            store (\<lambda>s. s\<lparr>users := (users s)(msg_sender e :=
                     (users s (msg_sender e))\<lparr>username := newUsername'\<rparr>)\<rparr>),
            store (\<lambda>s. s\<lparr>usernameToAddress :=
                     (usernameToAddress s)(newUsername' := msg_sender e)\<rparr>),
            emit (\<lambda>s. UsernameChanged (msg_sender e) oldUsername newUsername'
                    (block_timestamp e))]
           x)"

definition updateProfilePicture_stmts :: "env \<Rightarrow> string \<Rightarrow> AmigoChat \<Rightarrow> exec" where
  "updateProfilePicture_stmts e ipfsProfilePicHash' s =
     run_stmts
       [onlyRegisteredUser e,
        store (\<lambda>s. s\<lparr>users := (users s)(msg_sender e :=
                 (users s (msg_sender e))\<lparr>ipfsProfilePicHash := ipfsProfilePicHash'\<rparr>)\<rparr>)]
       (begin_call s)"

definition sendMessage_stmts :: "env \<Rightarrow> string \<Rightarrow> AmigoChat \<Rightarrow> exec" where
  "sendMessage_stmts e content' s =
     (let x = run_stmts (onlyRegisteredUser e # validMessage content') (begin_call s);
          newMessage = \<lparr>sender = msg_sender e, content = content',
                         timestamp = block_timestamp e,
                         messageId = totalMessages (storage x)\<rparr>
      in run_stmts
           [store (\<lambda>s. s\<lparr>generalChatMessages := generalChatMessages s @ [newMessage]\<rparr>),
            increment (\<lambda>s. totalMessagesSent (users s (msg_sender e)))
              (\<lambda>n s. s\<lparr>users := (users s)(msg_sender e :=
                        (users s (msg_sender e))\<lparr>totalMessagesSent := n\<rparr>)\<rparr>),
            increment totalMessages (\<lambda>n s. s\<lparr>totalMessages := n\<rparr>),
            emit (\<lambda>s. MessageSent (msg_sender e) content' (block_timestamp e)
                    (totalMessages s - 1))]
           x)"

definition sendDirectMessage_stmts ::
  "(byte list \<Rightarrow> bytes32) \<Rightarrow> env \<Rightarrow> address \<Rightarrow> string \<Rightarrow> AmigoChat \<Rightarrow> exec" where
  "sendDirectMessage_stmts keccak256 e receiver' content' s =
     (let x = run_stmts
                (onlyRegisteredUser e # validMessage content' @
                 [require (\<lambda>s. isRegistered (users s receiver')) ReceiverNotRegistered])
                (begin_call s);
          h = conversationHash keccak256 (msg_sender e) receiver';
          newDM = \<lparr>dm_sender = msg_sender e, dm_receiver = receiver',
                   dm_content = content', dm_timestamp = block_timestamp e,
                   isRead = False\<rparr>
      in run_stmts
           [store (\<lambda>s. s\<lparr>conversations := (conversations s)(h := conversations s h @ [newDM])\<rparr>),
            if_stmt (\<lambda>s. \<not> isInConversation s (msg_sender e) receiver')
              [store (\<lambda>s. s\<lparr>userConversations := (userConversations s)(msg_sender e :=
                        userConversations s (msg_sender e) @ [receiver'])\<rparr>),
               store (\<lambda>s. s\<lparr>userConversations := (userConversations s)(receiver' :=
                        userConversations s receiver' @ [msg_sender e])\<rparr>)],
            emit (\<lambda>s. DirectMessageSent (msg_sender e) receiver' content'
                    (block_timestamp e))]
           x)"

definition emergencyStop_stmts :: "env \<Rightarrow> AmigoChat \<Rightarrow> exec" where
  "emergencyStop_stmts e s = run_stmts [onlyOwner e] (begin_call s)"

definition transferOwnership_stmts :: "env \<Rightarrow> address \<Rightarrow> AmigoChat \<Rightarrow> exec" where
  "transferOwnership_stmts e newOwner' s =
     run_stmts
       [onlyOwner e,
        require (\<lambda>s. newOwner' \<noteq> 0) NewOwnerZero,
        store (\<lambda>s. s\<lparr>owner := newOwner'\<rparr>)]
       (begin_call s)"

definition updatePriceFeeds_stmts ::
  "env \<Rightarrow> address \<Rightarrow> address \<Rightarrow> address \<Rightarrow> AmigoChat \<Rightarrow> exec" where
  "updatePriceFeeds_stmts e priceFeedBTCUSD' priceFeedETHUSD' priceFeedLINKUSD' s =
     run_stmts
       [onlyOwner e,
        store (\<lambda>s. s\<lparr>priceFeedBTCUSD := priceFeedBTCUSD'\<rparr>),
        store (\<lambda>s. s\<lparr>priceFeedETHUSD := priceFeedETHUSD'\<rparr>),
        store (\<lambda>s. s\<lparr>priceFeedLINKUSD := priceFeedLINKUSD'\<rparr>)]
       (begin_call s)"

fun stmts :: "(byte list \<Rightarrow> bytes32) \<Rightarrow> tx \<Rightarrow> AmigoChat \<Rightarrow> exec" where
  "stmts k (e, RegisterUser u p) s = registerUser_stmts e u p s"
| "stmts k (e, ChangeUsername u) s = changeUsername_stmts e u s"
| "stmts k (e, UpdateProfilePicture p) s = updateProfilePicture_stmts e p s"
| "stmts k (e, SendMessage c) s = sendMessage_stmts e c s"
| "stmts k (e, SendDirectMessage r c) s = sendDirectMessage_stmts k e r c s"
| "stmts k (e, EmergencyStop) s = emergencyStop_stmts e s"
| "stmts k (e, TransferOwnership a) s = transferOwnership_stmts e a s"
| "stmts k (e, UpdatePriceFeeds a b c) s = updatePriceFeeds_stmts e a b c s"

section \<open>Invariants of the storage\<close>

text \<open>The two global counters are the lengths of the two arrays they count.\<close>

definition counters_ok :: "AmigoChat \<Rightarrow> bool" where
  "counters_ok s = (totalUsers s = length (registeredUsers s) \<and>
                    totalMessages s = length (generalChatMessages s))"

text \<open>The general channel carries the ids \<open>0, 1, 2, ...\<close> in order, and the next id
  is the counter.\<close>

definition ids_ok :: "AmigoChat \<Rightarrow> bool" where
  "ids_ok s = (totalMessages s = length (generalChatMessages s) \<and>
     map messageId (generalChatMessages s) = [0..<length (generalChatMessages s)])"

text \<open>Every registered profile has a nonzero address, a username of 1 to 50 bytes, and
  the username index points back to it.\<close>

definition names_ok :: "AmigoChat \<Rightarrow> bool" where
  "names_ok s = (\<forall>a. isRegistered (users s a) \<longrightarrow>
                   a \<noteq> 0 \<and> 0 < length (username (users s a)) \<and>
                   length (username (users s a)) \<le> 50 \<and>
                   usernameToAddress s (username (users s a)) = a)"

text \<open>The partner lists mirror each other, and hold a partner other than the owner of
  the list at most once.\<close>

definition partners_ok :: "AmigoChat \<Rightarrow> bool" where
  "partners_ok s = (\<forall>a b. count_list (userConversations s a) b =
                            count_list (userConversations s b) a)"

definition partners_once :: "AmigoChat \<Rightarrow> bool" where
  "partners_once s = (\<forall>a b. a \<noteq> b \<longrightarrow> count_list (userConversations s a) b \<le> 1)"

text \<open>The rejection rule of \<open>changeUsername\<close> in the words of the specification:
  the caller is not registered, or the name is empty or longer than 50, or the name is
  claimed by a different address.\<close>

definition spec_changeUsername_rejects :: "AmigoChat \<Rightarrow> address \<Rightarrow> string \<Rightarrow> bool" where
  "spec_changeUsername_rejects s a u =
     (\<not> isRegistered (users s a) \<or> length u = 0 \<or> 50 < length u \<or>
      (usernameToAddress s u \<noteq> 0 \<and> usernameToAddress s u \<noteq> a))"

section \<open>A concrete deployment\<close>

text \<open>A stand-in for the hash, a deployed contract and two callers, used to run the
  contract on concrete transactions.\<close>

definition toy_hash :: "byte list \<Rightarrow> bytes32" where
  "toy_hash bs = foldl (\<lambda>h b. 31 * h + ucast b) 7 bs"

definition deploy :: AmigoChat where
  "deploy = constructor \<lparr>msg_sender = 9, block_timestamp = 100\<rparr> 11 12 13"

definition alice :: env where
  "alice = \<lparr>msg_sender = 1, block_timestamp = 200\<rparr>"

definition bob :: env where
  "bob = \<lparr>msg_sender = 2, block_timestamp = 300\<rparr>"

definition scenario :: "tx list" where
  "scenario =
     [(alice, RegisterUser ''alice'' ''ref1''),
      (bob, RegisterUser ''alice'' ''ref2''),
      (bob, RegisterUser ''bob'' ''ref2''),
      (alice, SendMessage ''hi''),
      (bob, SendMessage ''hello'')]"

definition rename_trace :: "tx list" where
  "rename_trace =
     [(alice, RegisterUser ''alice'' ''ref1''),
      (alice, ChangeUsername ''al''),
      (bob, RegisterUser ''alice'' ''ref2'')]"

definition self_message_trace :: "tx list" where
  "self_message_trace =
     [(alice, RegisterUser ''alice'' ''ref1''),
      (alice, SendDirectMessage 1 ''note to self'')]"

definition chat_trace :: "tx list" where
  "chat_trace =
     [(alice, RegisterUser ''alice'' ''ref1''),
      (bob, RegisterUser ''bob'' ''ref2''),
      (alice, SendDirectMessage 2 ''hi bob''),
      (bob, SendDirectMessage 1 ''hi alice'')]"

section \<open>Preservation of the invariants\<close>

lemmas op_defs = registerUser_def changeUsername_def updateProfilePicture_def sendMessage_def
  sendDirectMessage_def emergencyStop_def transferOwnership_def updatePriceFeeds_def

lemmas demo_defs = deploy_def alice_def bob_def scenario_def rename_trace_def
  self_message_trace_def chat_trace_def constructor_def empty_profile_def transact_def
  max_uint256_def isInConversation_def conversationHash_def signed_def

lemma scan_partners_set: "scan_partners ps u = (u \<in> set ps)"
  by (induction ps) auto

lemma execute_counters_ok:
  "counters_ok s \<Longrightarrow> execute k (e, c) s = Inr (s', evs) \<Longrightarrow> counters_ok s'"
  by (cases c) (auto simp: op_defs counters_ok_def Let_def split: if_splits)

lemma execute_ids_ok:
  "ids_ok s \<Longrightarrow> execute k (e, c) s = Inr (s', evs) \<Longrightarrow> ids_ok s'"
  by (cases c) (auto simp: op_defs ids_ok_def Let_def split: if_splits)

lemma changeUsername_names_ok:
  assumes inv: "names_ok s" and ok: "changeUsername e u s = Inr (s', evs)"
  shows "names_ok s'"
proof -
  let ?a = "msg_sender e"
  let ?old = "username (users s ?a)"
  from ok have reg: "isRegistered (users s ?a)" and free: "usernameToAddress s u = 0"
    and len: "0 < length u" "length u \<le> 50"
    by (auto simp: changeUsername_def split: if_splits)
  from ok reg free have s': "s' = s\<lparr>users := (users s)(?a := (users s ?a)\<lparr>username := u\<rparr>),
      usernameToAddress := (usernameToAddress s)(?old := 0, u := ?a)\<rparr>"
    by (auto simp: changeUsername_def Let_def split: if_splits)
  from inv reg have a0: "?a \<noteq> 0" and own: "usernameToAddress s ?old = ?a"
    by (auto simp: names_ok_def)
  show ?thesis
    unfolding names_ok_def
  proof (intro allI impI)
    fix b assume b: "isRegistered (users s' b)"
    show "b \<noteq> 0 \<and> 0 < length (username (users s' b)) \<and>
          length (username (users s' b)) \<le> 50 \<and>
          usernameToAddress s' (username (users s' b)) = b"
    proof (cases "b = ?a")
      case True
      with a0 len show ?thesis by (simp add: s')
    next
      case False
      with b have regb: "isRegistered (users s b)" by (simp add: s')
      with inv have b0: "b \<noteq> 0" and ownb: "usernameToAddress s (username (users s b)) = b"
        and lenb: "0 < length (username (users s b))" "length (username (users s b)) \<le> 50"
        by (auto simp: names_ok_def)
      from ownb own False have "username (users s b) \<noteq> ?old" by auto
      moreover from ownb free b0 have "username (users s b) \<noteq> u" by auto
      ultimately show ?thesis using False b0 ownb lenb by (simp add: s')
    qed
  qed
qed

lemma execute_names_ok:
  "names_ok s \<Longrightarrow> msg_sender e \<noteq> 0 \<Longrightarrow> execute k (e, c) s = Inr (s', evs) \<Longrightarrow> names_ok s'"
proof (cases c)
  case (ChangeUsername u)
  then show "names_ok s \<Longrightarrow> execute k (e, c) s = Inr (s', evs) \<Longrightarrow> names_ok s'"
    by (simp add: changeUsername_names_ok)
qed (auto simp: op_defs names_ok_def Let_def split: if_splits)

lemma execute_partners_ok:
  "partners_ok s \<Longrightarrow> execute k (e, c) s = Inr (s', evs) \<Longrightarrow> partners_ok s'"
  by (cases c) (auto simp: op_defs partners_ok_def Let_def isInConversation_def split: if_splits)

lemma sendDirectMessage_partners_once:
  assumes sym: "partners_ok s" and once: "partners_once s"
    and ok: "sendDirectMessage k e r c s = Inr (s', evs)"
  shows "partners_once s'"
proof (cases "r \<in> set (userConversations s (msg_sender e))")
  case True
  with ok have "userConversations s' = userConversations s"
    by (auto simp: sendDirectMessage_def Let_def isInConversation_def scan_partners_set
        split: if_splits)
  with once show ?thesis by (simp add: partners_once_def)
next
  case False
  let ?a = "msg_sender e"
  from False have z1: "count_list (userConversations s ?a) r = 0" by simp
  with sym have z2: "count_list (userConversations s r) ?a = 0"
    by (simp add: partners_ok_def)
  from ok False have uc: "userConversations s' = (userConversations s)
      (?a := userConversations s ?a @ [r],
       r := ((userConversations s)(?a := userConversations s ?a @ [r])) r @ [?a])"
    by (auto simp: sendDirectMessage_def Let_def isInConversation_def scan_partners_set
        split: if_splits)
  show ?thesis
    unfolding partners_once_def
  proof (intro allI impI)
    fix x y :: address assume xy: "x \<noteq> y"
    from once xy have old: "count_list (userConversations s x) y \<le> 1"
      by (simp add: partners_once_def)
    show "count_list (userConversations s' x) y \<le> 1"
      using old z1 z2 xy by (auto simp: uc)
  qed
qed

lemma execute_partners_once:
  "partners_ok s \<Longrightarrow> partners_once s \<Longrightarrow> execute k (e, c) s = Inr (s', evs)
     \<Longrightarrow> partners_once s'"
proof (cases c)
  case (SendDirectMessage r m)
  then show "partners_ok s \<Longrightarrow> partners_once s \<Longrightarrow> execute k (e, c) s = Inr (s', evs)
      \<Longrightarrow> partners_once s'"
    by (simp add: sendDirectMessage_partners_once)
qed (auto simp: op_defs partners_once_def Let_def split: if_splits)

section \<open>Runs\<close>

lemma transact_invariant:
  assumes "P s" and "\<And>s' evs. execute k t s = Inr (s', evs) \<Longrightarrow> P s'"
  shows "P (transact k t s)"
  using assms by (auto simp: transact_def split: sum.splits)

lemma run_invariant:
  assumes "P s"
    and "\<And>t s s' evs. t \<in> set ts \<Longrightarrow> P s \<Longrightarrow> execute k t s = Inr (s', evs) \<Longrightarrow> P s'"
  shows "P (run k ts s)"
  using assms
proof (induction ts arbitrary: s)
  case Nil
  then show ?case by simp
next
  case (Cons t ts)
  have step: "P (transact k t s)"
  proof (rule transact_invariant [of P])
    show "P s" by fact
  next
    fix s' evs assume "execute k t s = Inr (s', evs)"
    with Cons.prems(1) show "P s'" by (rule Cons.prems(2) [of t s, rotated]) simp
  qed
  have "P (run k ts (transact k t s))"
  proof (rule Cons.IH [OF step])
    fix t' s1 s2 evs
    assume "t' \<in> set ts" "P s1" "execute k t' s1 = Inr (s2, evs)"
    then show "P s2" using Cons.prems(2) [of t' s1 s2 evs] by simp
  qed
  then show ?case by simp
qed

lemma run_counters_ok: "counters_ok s \<Longrightarrow> counters_ok (run k ts s)"
proof (rule run_invariant [of counters_ok])
  fix t s s' evs
  assume "counters_ok s" "execute k t s = Inr (s', evs)"
  then show "counters_ok s'" by (cases t) (auto intro: execute_counters_ok)
qed

lemma run_ids_ok: "ids_ok s \<Longrightarrow> ids_ok (run k ts s)"
proof (rule run_invariant [of ids_ok])
  fix t s s' evs
  assume "ids_ok s" "execute k t s = Inr (s', evs)"
  then show "ids_ok s'" by (cases t) (auto intro: execute_ids_ok)
qed

lemma run_partners_ok: "partners_ok s \<Longrightarrow> partners_ok (run k ts s)"
proof (rule run_invariant [of partners_ok])
  fix t s s' evs
  assume "partners_ok s" "execute k t s = Inr (s', evs)"
  then show "partners_ok s'" by (cases t) (auto intro: execute_partners_ok)
qed

lemma run_partners_once:
  assumes "partners_ok s" and "partners_once s"
  shows "partners_once (run k ts s)"
proof -
  have "partners_ok (run k ts s) \<and> partners_once (run k ts s)"
  proof (rule run_invariant [of "\<lambda>s. partners_ok s \<and> partners_once s"])
    show "partners_ok s \<and> partners_once s" using assms by simp
  next
    fix t s s' evs
    assume "partners_ok s \<and> partners_once s" "execute k t s = Inr (s', evs)"
    then show "partners_ok s' \<and> partners_once s'"
      by (cases t) (auto intro: execute_partners_ok execute_partners_once)
  qed
  then show ?thesis by simp
qed

lemma run_names_ok:
  assumes "names_ok s" and "list_all signed ts"
  shows "names_ok (run k ts s)"
proof (rule run_invariant [of names_ok])
  show "names_ok s" by fact
next
  fix t s s' evs
  assume "t \<in> set ts" "names_ok s" "execute k t s = Inr (s', evs)"
  with assms(2) show "names_ok s'"
    by (cases t) (auto simp: list_all_iff signed_def intro: execute_names_ok)
qed

lemma constructor_counters_ok: "counters_ok (constructor e f1 f2 f3)"
  by (simp add: counters_ok_def constructor_def)

lemma constructor_ids_ok: "ids_ok (constructor e f1 f2 f3)"
  by (simp add: ids_ok_def constructor_def)

lemma constructor_names_ok: "names_ok (constructor e f1 f2 f3)"
  by (simp add: names_ok_def constructor_def empty_profile_def)

lemma constructor_partners: "partners_ok (constructor e f1 f2 f3) \<and> partners_once (constructor e f1 f2 f3)"
  by (simp add: partners_ok_def partners_once_def constructor_def)

lemma reachable_names_ok:
  "list_all signed ts \<Longrightarrow> names_ok (run k ts (constructor e0 f1 f2 f3))"
  by (rule run_names_ok) (rule constructor_names_ok)

section \<open>Effects of single calls\<close>

lemma sendMessage_effect:
  assumes "sendMessage e c s = Inr (s', evs)"
  shows "generalChatMessages s' = generalChatMessages s @
           [\<lparr>sender = msg_sender e, content = c, timestamp = block_timestamp e,
             messageId = totalMessages s\<rparr>]"
    and "totalMessagesSent (users s' (msg_sender e)) =
           totalMessagesSent (users s (msg_sender e)) + 1"
    and "totalMessages s' = totalMessages s + 1"
  using assms by (auto simp: sendMessage_def Let_def split: if_splits)

lemma changeUsername_effect:
  assumes "changeUsername e u s = Inr (s', evs)"
  shows "isRegistered (users s (msg_sender e))"
    and "usernameToAddress s u = 0"
    and "usernameToAddress s' =
           (usernameToAddress s)(username (users s (msg_sender e)) := 0, u := msg_sender e)"
    and "username (users s' (msg_sender e)) = u"
  using assms by (auto simp: changeUsername_def Let_def split: if_splits)

lemma names_ok_unique:
  assumes "names_ok s" and "a \<noteq> b"
    and "isRegistered (users s a)" and "isRegistered (users s b)"
  shows "username (users s a) \<noteq> username (users s b)"
proof
  assume "username (users s a) = username (users s b)"
  moreover from assms have "usernameToAddress s (username (users s a)) = a"
    "usernameToAddress s (username (users s b)) = b"
    by (auto simp: names_ok_def)
  ultimately show False using assms(2) by simp
qed

section \<open>Successful registrations of a run\<close>

lemma registrations_Nil: "registrations k [] s = []"
  by (simp add: registrations_def)

lemma registrations_Cons:
  "registrations k (t # ts) s =
     (case execute k t s of
        Inl err \<Rightarrow> registrations k ts s
      | Inr (s', evs) \<Rightarrow> registered_as t @ registrations k ts s')"
  by (simp add: registrations_def split: sum.splits)

lemma renames_Cons:
  "renames k (t # ts) s =
     (case execute k t s of
        Inl err \<Rightarrow> renames k ts s
      | Inr (s', evs) \<Rightarrow> renamed_to t @ renames k ts s')"
  by (simp add: renames_def split: sum.splits)

lemma execute_keeps_registered:
  "execute k (e, c) s = Inr (s', evs) \<Longrightarrow> isRegistered (users s a)
     \<Longrightarrow> isRegistered (users s' a)"
  by (cases c) (auto simp: op_defs Let_def split: if_splits)

lemma registered_as_effect:
  assumes "execute k t s = Inr (s', evs)" and "(a, u) \<in> set (registered_as t)"
  shows "\<not> isRegistered (users s a) \<and> isRegistered (users s' a) \<and>
         usernameToAddress s u = 0 \<and> usernameToAddress s' u = a"
proof -
  obtain e c where t: "t = (e, c)" by (cases t)
  with assms(2) obtain p where c: "c = RegisterUser u p" and a: "a = msg_sender e"
    by (cases c) auto
  with assms(1) t show ?thesis
    by (auto simp: registerUser_def Let_def split: if_splits)
qed

lemma registrations_unregistered:
  "(a, u) \<in> set (registrations k ts s) \<Longrightarrow> \<not> isRegistered (users s a)"
proof (induction ts arbitrary: s)
  case Nil
  then show ?case by (simp add: registrations_Nil)
next
  case (Cons t ts)
  show ?case
  proof (cases "execute k t s")
    case (Inl err)
    with Cons show ?thesis by (simp add: registrations_Cons)
  next
    case (Inr r)
    obtain s' evs where r: "r = (s', evs)" by (cases r)
    from Cons.prems Inr r
    consider "(a, u) \<in> set (registered_as t)" | "(a, u) \<in> set (registrations k ts s')"
      by (auto simp: registrations_Cons)
    then show ?thesis
    proof cases
      case 1
      with Inr r show ?thesis using registered_as_effect by blast
    next
      case 2
      then have "\<not> isRegistered (users s' a)" by (rule Cons.IH)
      with Inr r show ?thesis
        by (cases t) (auto dest: execute_keeps_registered)
    qed
  qed
qed

lemma registrations_distinct_addresses:
  "distinct (map fst (registrations k ts s))"
proof (induction ts arbitrary: s)
  case Nil
  show ?case by (simp add: registrations_Nil)
next
  case (Cons t ts)
  show ?case
  proof (cases "execute k t s")
    case (Inl err)
    with Cons show ?thesis by (simp add: registrations_Cons)
  next
    case (Inr r)
    obtain s' evs where r: "r = (s', evs)" by (cases r)
    have new: "\<And>a u v. (a, u) \<in> set (registered_as t) \<Longrightarrow>
        (a, v) \<in> set (registrations k ts s') \<Longrightarrow> False"
    proof -
      fix a u v assume "(a, u) \<in> set (registered_as t)"
        and "(a, v) \<in> set (registrations k ts s')"
      then have "isRegistered (users s' a)" "\<not> isRegistered (users s' a)"
        using registered_as_effect [of k t s s' evs a u] Inr r
        by (auto dest: registrations_unregistered)
      then show False by simp
    qed
    have "distinct (map fst (registered_as t))"
      by (cases t rule: registered_as.cases) auto
    with new Cons.IH [of s'] Inr r show ?thesis
      by (auto simp: registrations_Cons)
  qed
qed

text \<open>A call other than a successful \<open>changeUsername\<close> never clears an entry of the
  username index.\<close>

lemma execute_keeps_claims:
  assumes "execute k t s = Inr (s', evs)" and "renamed_to t = []" and "signed t"
    and "usernameToAddress s' v = 0"
  shows "usernameToAddress s v = 0"
proof -
  obtain e c where t: "t = (e, c)" by (cases t)
  with assms show ?thesis
    by (cases c) (auto simp: op_defs Let_def signed_def split: if_splits)
qed

lemma registrations_names_free:
  "list_all signed ts \<Longrightarrow> renames k ts s = [] \<Longrightarrow> (a, u) \<in> set (registrations k ts s)
     \<Longrightarrow> usernameToAddress s u = 0"
proof (induction ts arbitrary: s)
  case Nil
  then show ?case by (simp add: registrations_Nil)
next
  case (Cons t ts)
  show ?case
  proof (cases "execute k t s")
    case (Inl err)
    with Cons show ?thesis by (simp add: registrations_Cons renames_Cons)
  next
    case (Inr r)
    obtain s' evs where r: "r = (s', evs)" by (cases r)
    from Cons.prems Inr r have quiet: "renamed_to t = []" "renames k ts s' = []"
      and sg: "signed t" "list_all signed ts"
      by (auto simp: renames_Cons)
    from Cons.prems(3) Inr r
    consider "(a, u) \<in> set (registered_as t)" | "(a, u) \<in> set (registrations k ts s')"
      by (auto simp: registrations_Cons)
    then show ?thesis
    proof cases
      case 1
      with Inr r show ?thesis using registered_as_effect by blast
    next
      case 2
      with sg(2) quiet(2) have "usernameToAddress s' u = 0" by (rule Cons.IH)
      with Inr r quiet(1) sg(1) show ?thesis
        by (auto intro: execute_keeps_claims)
    qed
  qed
qed

lemma registrations_distinct_names:
  "list_all signed ts \<Longrightarrow> renames k ts s = [] \<Longrightarrow> distinct (map snd (registrations k ts s))"
proof (induction ts arbitrary: s)
  case Nil
  show ?case by (simp add: registrations_Nil)
next
  case (Cons t ts)
  show ?case
  proof (cases "execute k t s")
    case (Inl err)
    with Cons show ?thesis by (simp add: registrations_Cons renames_Cons)
  next
    case (Inr r)
    obtain s' evs where r: "r = (s', evs)" by (cases r)
    from Cons.prems Inr r have quiet: "renames k ts s' = []"
      and sg: "signed t" "list_all signed ts"
      by (auto simp: renames_Cons)
    have new: "\<And>a b u. (a, u) \<in> set (registered_as t) \<Longrightarrow>
        (b, u) \<in> set (registrations k ts s') \<Longrightarrow> False"
    proof -
      fix a b u assume 1: "(a, u) \<in> set (registered_as t)"
        and 2: "(b, u) \<in> set (registrations k ts s')"
      from 1 Inr r have "usernameToAddress s' u = a"
        using registered_as_effect by blast
      moreover from 1 sg(1) have "a \<noteq> 0"
        by (cases t rule: registered_as.cases) (auto simp: signed_def)
      moreover from sg(2) quiet 2 have "usernameToAddress s' u = 0"
        by (rule registrations_names_free)
      ultimately show False by simp
    qed
    have "distinct (map snd (registered_as t))"
      by (cases t rule: registered_as.cases) auto
    with new Cons.IH [OF sg(2) quiet] Inr r show ?thesis
      by (auto simp: registrations_Cons)
  qed
qed

section \<open>Partner lists of two different addresses\<close>

text \<open>
  The partner lists only grow. Once a direct message between two different addresses has
  been sent, each of them is in the partner list of the other exactly once, whatever
  transactions follow.
\<close>

lemma execute_partners_grow:
  "execute k (e, c) s = Inr (s', evs) \<Longrightarrow>
     count_list (userConversations s x) y \<le> count_list (userConversations s' x) y"
  by (cases c) (auto simp: op_defs Let_def split: if_splits)

lemma run_partners_grow:
  "count_list (userConversations s x) y \<le> count_list (userConversations (run k ts s) x) y"
proof (rule run_invariant
    [of "\<lambda>s'. count_list (userConversations s x) y \<le> count_list (userConversations s' x) y"])
  fix t s1 s2 evs
  assume "count_list (userConversations s x) y \<le> count_list (userConversations s1 x) y"
    and "execute k t s1 = Inr (s2, evs)"
  then show "count_list (userConversations s x) y \<le> count_list (userConversations s2 x) y"
    using execute_partners_grow [of k "fst t" "snd t" s1 s2 evs x y] by simp
qed simp

lemma sendDirectMessage_lists_receiver:
  "sendDirectMessage k e r c s = Inr (s', evs) \<Longrightarrow>
     r \<in> set (userConversations s' (msg_sender e))"
  by (auto simp: sendDirectMessage_def Let_def isInConversation_def scan_partners_set
      split: if_splits)

lemma distinct_partners_listed_once:
  assumes "msg_sender e \<noteq> r"
    and "sendDirectMessage k e r c (run k ts (constructor e0 f1 f2 f3)) = Inr (s', evs)"
  shows "count_list (userConversations (run k later s') (msg_sender e)) r = 1 \<and>
         count_list (userConversations (run k later s') r) (msg_sender e) = 1"
proof -
  let ?s = "run k ts (constructor e0 f1 f2 f3)"
  let ?a = "msg_sender e"
  have ex: "execute k (e, SendDirectMessage r c) ?s = Inr (s', evs)"
    using assms(2) by simp
  have inv: "partners_ok ?s" "partners_once ?s"
    using constructor_partners by (auto intro: run_partners_ok run_partners_once)
  have "partners_ok s'"
    by (rule execute_partners_ok [OF inv(1) ex])
  moreover have "partners_once s'"
    by (rule execute_partners_once [OF inv ex])
  ultimately have sym: "partners_ok (run k later s')" and once: "partners_once (run k later s')"
    by (auto intro: run_partners_ok run_partners_once)
  from sendDirectMessage_lists_receiver [OF assms(2)]
  have "count_list (userConversations s' ?a) r \<noteq> 0"
    by (simp add: count_list_0_iff)
  then have "1 \<le> count_list (userConversations s' ?a) r"
    by simp
  also have "\<dots> \<le> count_list (userConversations (run k later s') ?a) r"
    by (rule run_partners_grow)
  finally have "1 \<le> count_list (userConversations (run k later s') ?a) r" .
  moreover from once assms(1) have "count_list (userConversations (run k later s') ?a) r \<le> 1"
    by (simp add: partners_once_def)
  ultimately have "count_list (userConversations (run k later s') ?a) r = 1"
    by simp
  with sym show ?thesis by (simp add: partners_ok_def)
qed

section \<open>The statements against the functions\<close>

text \<open>
  Running the statements of a function and then committing (or, on an error, discarding
  what was written) is the function of the first section; and a call that a
  \<open>require\<close> stops has written nothing and emitted nothing at that point. Only the
  arithmetic panic of a checked \<open>++\<close> comes after writes.
\<close>

lemma require_simps:
  "require cond msg \<lparr>storage = s, emitted = evs, halted = None\<rparr> =
     (if cond s then \<lparr>storage = s, emitted = evs, halted = None\<rparr>
      else \<lparr>storage = s, emitted = evs, halted = Some msg\<rparr>)"
  "require cond msg \<lparr>storage = s, emitted = evs, halted = Some err\<rparr> =
     \<lparr>storage = s, emitted = evs, halted = Some err\<rparr>"
  by (simp_all add: require_def)

lemma store_simps:
  "store f \<lparr>storage = s, emitted = evs, halted = None\<rparr> =
     \<lparr>storage = f s, emitted = evs, halted = None\<rparr>"
  "store f \<lparr>storage = s, emitted = evs, halted = Some err\<rparr> =
     \<lparr>storage = s, emitted = evs, halted = Some err\<rparr>"
  by (simp_all add: store_def)

lemma increment_simps:
  "increment rd wr \<lparr>storage = s, emitted = evs, halted = None\<rparr> =
     (if rd s = max_uint256 then \<lparr>storage = s, emitted = evs, halted = Some PanicOverflow\<rparr>
      else \<lparr>storage = wr (rd s + 1) s, emitted = evs, halted = None\<rparr>)"
  "increment rd wr \<lparr>storage = s, emitted = evs, halted = Some err\<rparr> =
     \<lparr>storage = s, emitted = evs, halted = Some err\<rparr>"
  by (simp_all add: increment_def)

lemma emit_simps:
  "emit ev \<lparr>storage = s, emitted = evs, halted = None\<rparr> =
     \<lparr>storage = s, emitted = evs @ [ev s], halted = None\<rparr>"
  "emit ev \<lparr>storage = s, emitted = evs, halted = Some err\<rparr> =
     \<lparr>storage = s, emitted = evs, halted = Some err\<rparr>"
  by (simp_all add: emit_def)

lemma if_stmt_simps:
  "if_stmt cond body \<lparr>storage = s, emitted = evs, halted = None\<rparr> =
     (if cond s then run_stmts body \<lparr>storage = s, emitted = evs, halted = None\<rparr>
      else \<lparr>storage = s, emitted = evs, halted = None\<rparr>)"
  "if_stmt cond body \<lparr>storage = s, emitted = evs, halted = Some err\<rparr> =
     \<lparr>storage = s, emitted = evs, halted = Some err\<rparr>"
  by (simp_all add: if_stmt_def)

lemmas stmt_simps = begin_call_def require_simps store_simps increment_simps emit_simps
  if_stmt_simps onlyRegisteredUser_def onlyOwner_def validUsername_def validMessage_def

lemma registerUser_commit: "registerUser e u p s = commit (registerUser_stmts e u p s)"
  by (simp add: registerUser_def registerUser_stmts_def stmt_simps commit_def Let_def)

lemma changeUsername_commit: "changeUsername e u s = commit (changeUsername_stmts e u s)"
  by (simp add: changeUsername_def changeUsername_stmts_def stmt_simps commit_def Let_def)

lemma updateProfilePicture_commit:
  "updateProfilePicture e p s = commit (updateProfilePicture_stmts e p s)"
  by (simp add: updateProfilePicture_def updateProfilePicture_stmts_def stmt_simps commit_def)

lemma sendMessage_commit: "sendMessage e c s = commit (sendMessage_stmts e c s)"
  by (simp add: sendMessage_def sendMessage_stmts_def stmt_simps commit_def Let_def)

lemma sendDirectMessage_commit:
  "sendDirectMessage k e r c s = commit (sendDirectMessage_stmts k e r c s)"
  by (simp add: sendDirectMessage_def sendDirectMessage_stmts_def stmt_simps commit_def Let_def)

lemma admin_commit:
  "emergencyStop e s = commit (emergencyStop_stmts e s)"
  "transferOwnership e a s = commit (transferOwnership_stmts e a s)"
  "updatePriceFeeds e f1 f2 f3 s = commit (updatePriceFeeds_stmts e f1 f2 f3 s)"
  by (simp_all add: emergencyStop_def transferOwnership_def updatePriceFeeds_def
      emergencyStop_stmts_def transferOwnership_stmts_def updatePriceFeeds_stmts_def
      stmt_simps commit_def)

lemma execute_commit: "execute k (e, c) s = commit (stmts k (e, c) s)"
  by (cases c)
     (simp_all add: registerUser_commit changeUsername_commit updateProfilePicture_commit
        sendMessage_commit sendDirectMessage_commit admin_commit)

lemmas stmts_defs = registerUser_stmts_def changeUsername_stmts_def
  updateProfilePicture_stmts_def sendMessage_stmts_def sendDirectMessage_stmts_def
  emergencyStop_stmts_def transferOwnership_stmts_def updatePriceFeeds_stmts_def

lemma stmts_outcomes:
  "halted (stmts k (e, c) s) = None \<or> halted (stmts k (e, c) s) = Some PanicOverflow \<or>
   (storage (stmts k (e, c) s) = s \<and> emitted (stmts k (e, c) s) = [])"
  by (cases c) (simp_all add: stmts_defs stmt_simps Let_def)

lemma require_failure_before_writes:
  "halted (stmts k (e, c) s) = Some err \<Longrightarrow> err \<noteq> PanicOverflow \<Longrightarrow>
     storage (stmts k (e, c) s) = s \<and> emitted (stmts k (e, c) s) = []"
  using stmts_outcomes [of k e c s] by auto

section \<open>The concrete runs\<close>

lemma alice_registered_profile:
  "isRegistered (users (transact toy_hash (alice, RegisterUser ''alice'' ''ref1'') deploy) 1)"
  "username (users (transact toy_hash (alice, RegisterUser ''alice'' ''ref1'') deploy) 1) = ''alice''"
  "usernameToAddress (transact toy_hash (alice, RegisterUser ''alice'' ''ref1'') deploy) ''alice'' = 1"
  "usernameToAddress (transact toy_hash (alice, RegisterUser ''alice'' ''ref1'') deploy) ''al'' = 0"
  "totalMessagesSent (users (transact toy_hash (alice, RegisterUser ''alice'' ''ref1'') deploy) 1) = 0"
  "totalMessages (transact toy_hash (alice, RegisterUser ''alice'' ''ref1'') deploy) = 0"
  "generalChatMessages (transact toy_hash (alice, RegisterUser ''alice'' ''ref1'') deploy) = []"
  "userConversations (transact toy_hash (alice, RegisterUser ''alice'' ''ref1'') deploy) 1 = []"
  by (simp_all add: demo_defs op_defs Let_def)

lemma chat_trace_partners:
  "userConversations (run toy_hash chat_trace deploy) 1 = [2]"
  "userConversations (run toy_hash chat_trace deploy) 2 = [1]"
  by (simp_all add: demo_defs op_defs Let_def)

lemma scenario_registrations:
  "registrations toy_hash scenario deploy = [(1, ''alice''), (2, ''bob'')]"
  "renames toy_hash scenario deploy = []"
  by (simp_all add: registrations_def renames_def demo_defs op_defs Let_def)

lemma scenario_profiles:
  "isRegistered (users (run toy_hash scenario deploy) 1)"
  "isRegistered (users (run toy_hash scenario deploy) 2)"
  "username (users (run toy_hash scenario deploy) 1) = ''alice''"
  "username (users (run toy_hash scenario deploy) 2) = ''bob''"
  by (simp_all add: demo_defs op_defs Let_def)

section \<open>The claims\<close>

text \<open>
  Claim C1, as stated, fails: alice registers as "alice" and renames herself to "al",
  which releases "alice"; bob then registers as "alice". Both registrations succeed and
  claim the same username.
\<close>

theorem register_after_rename_counterexample:
  "registrations toy_hash rename_trace deploy = [(1, ''alice''), (2, ''alice'')] \<and>
   \<not> distinct (map snd (registrations toy_hash rename_trace deploy))"
  by (simp add: registrations_def demo_defs op_defs Let_def)

text \<open>
  Claim C1, amended. Take any state reached from the constructor by transactions of
  nonzero senders, and any further such transactions from it. Among these, no address
  registers successfully twice; if no \<open>changeUsername\<close> succeeds among them, no two
  successful registrations claim the same username; and in the state they lead to, two
  different registered addresses never carry the same username.
\<close>

theorem registrations_unique:
  assumes "list_all signed ts" and "list_all signed seg"
  shows "distinct (map fst (registrations k seg (run k ts (constructor e0 f1 f2 f3)))) \<and>
         (renames k seg (run k ts (constructor e0 f1 f2 f3)) = [] \<longrightarrow>
            distinct (map snd (registrations k seg (run k ts (constructor e0 f1 f2 f3))))) \<and>
         (a \<noteq> b \<and>
          isRegistered (users (run k seg (run k ts (constructor e0 f1 f2 f3))) a) \<and>
          isRegistered (users (run k seg (run k ts (constructor e0 f1 f2 f3))) b) \<longrightarrow>
            username (users (run k seg (run k ts (constructor e0 f1 f2 f3))) a) \<noteq>
            username (users (run k seg (run k ts (constructor e0 f1 f2 f3))) b))"
proof -
  let ?s = "run k ts (constructor e0 f1 f2 f3)"
  have "names_ok ?s"
    using assms(1) by (rule reachable_names_ok)
  then have "names_ok (run k seg ?s)"
    using assms(2) by (rule run_names_ok)
  then show ?thesis
    using registrations_distinct_addresses [of k seg ?s]
      registrations_distinct_names [OF assms(2), of k ?s]
    by (auto dest: names_ok_unique)
qed

theorem registrations_unique_witness:
  "list_all signed [] \<and> list_all signed scenario \<and>
   renames toy_hash scenario (run toy_hash [] deploy) = [] \<and>
   (1 :: address) \<noteq> 2 \<and>
   isRegistered (users (run toy_hash scenario (run toy_hash [] deploy)) 1) \<and>
   isRegistered (users (run toy_hash scenario (run toy_hash [] deploy)) 2) \<and>
   distinct (map fst (registrations toy_hash scenario (run toy_hash [] deploy))) \<and>
   distinct (map snd (registrations toy_hash scenario (run toy_hash [] deploy))) \<and>
   username (users (run toy_hash scenario (run toy_hash [] deploy)) 1) \<noteq>
   username (users (run toy_hash scenario (run toy_hash [] deploy)) 2)"
proof -
  have h1: "list_all signed []" by simp
  have h2: "list_all signed scenario"
    by (simp add: scenario_def signed_def alice_def bob_def)
  have h3: "renames toy_hash scenario (run toy_hash [] deploy) = []"
    by (simp add: scenario_registrations)
  have h4: "(1 :: address) \<noteq> 2" by simp
  have h5: "isRegistered (users (run toy_hash scenario (run toy_hash [] deploy)) 1)"
    "isRegistered (users (run toy_hash scenario (run toy_hash [] deploy)) 2)"
    by (simp_all add: scenario_profiles)
  note inst = registrations_unique [OF h1 h2, where k = toy_hash and a = 1 and b = 2
      and ?e0.0 = "\<lparr>msg_sender = 9, block_timestamp = 100\<rparr>" and ?f1.0 = 11 and ?f2.0 = 12
      and ?f3.0 = 13, folded deploy_def]
  from inst h1 h2 h3 h4 h5 show ?thesis by blast
qed

text \<open>
  Claim C2. In every state reached from the constructor, a \<open>sendMessage\<close> that returns
  has appended exactly one message to the general channel, the id of that message is the
  previous length of the channel, and \<open>totalMessagesSent\<close> of the sender has grown by
  exactly 1; the ids of the channel are \<open>0, 1, 2, ...\<close> in order, without a gap.
\<close>

theorem sendMessage_appends_next_id:
  assumes "sendMessage e c (run k ts (constructor e0 f1 f2 f3)) = Inr (s', evs)"
  shows "length (getGeneralChatMessages s') =
           length (getGeneralChatMessages (run k ts (constructor e0 f1 f2 f3))) + 1 \<and>
         butlast (getGeneralChatMessages s') =
           getGeneralChatMessages (run k ts (constructor e0 f1 f2 f3)) \<and>
         messageId (last (getGeneralChatMessages s')) =
           length (getGeneralChatMessages (run k ts (constructor e0 f1 f2 f3))) \<and>
         totalMessagesSent (users s' (msg_sender e)) =
           totalMessagesSent (users (run k ts (constructor e0 f1 f2 f3)) (msg_sender e)) + 1 \<and>
         map messageId (getGeneralChatMessages s') =
           [0..<length (getGeneralChatMessages s')]"
proof -
  let ?s = "run k ts (constructor e0 f1 f2 f3)"
  have inv: "ids_ok ?s"
    by (rule run_ids_ok) (rule constructor_ids_ok)
  then have next_id: "totalMessages ?s = length (generalChatMessages ?s)"
    by (simp add: ids_ok_def)
  have "execute k (e, SendMessage c) ?s = Inr (s', evs)"
    using assms by simp
  with inv have "ids_ok s'"
    by (rule execute_ids_ok)
  then have ids: "map messageId (generalChatMessages s') = [0..<length (generalChatMessages s')]"
    by (simp add: ids_ok_def)
  show ?thesis
    using sendMessage_effect [OF assms] next_id ids
    by (simp add: getGeneralChatMessages_def)
qed

theorem sendMessage_appends_next_id_witness:
  "\<exists>s' evs. sendMessage alice ''hi'' (run toy_hash [(alice, RegisterUser ''alice'' ''ref1'')] deploy)
       = Inr (s', evs) \<and>
     length (getGeneralChatMessages s') = 1 \<and>
     messageId (last (getGeneralChatMessages s')) = 0 \<and>
     totalMessagesSent (users s' (msg_sender alice)) = 1 \<and>
     map messageId (getGeneralChatMessages s') = [0]"
proof -
  let ?s = "run toy_hash [(alice, RegisterUser ''alice'' ''ref1'')] deploy"
  have a: "msg_sender alice = 1" by (simp add: alice_def)
  have s: "?s = transact toy_hash (alice, RegisterUser ''alice'' ''ref1'') deploy" by simp
  have "\<exists>s' evs. sendMessage alice ''hi'' ?s = Inr (s', evs)"
    unfolding s by (simp add: sendMessage_def a alice_registered_profile max_uint256_def Let_def)
  then obtain s' evs where ok: "sendMessage alice ''hi'' ?s = Inr (s', evs)"
    by blast
  note inst = sendMessage_appends_next_id [of alice "''hi''" toy_hash
      "[(alice, RegisterUser ''alice'' ''ref1'')]" "\<lparr>msg_sender = 9, block_timestamp = 100\<rparr>"
      11 12 13 s' evs, folded deploy_def, OF ok]
  from inst have "length (getGeneralChatMessages s') = 1 \<and>
     messageId (last (getGeneralChatMessages s')) = 0 \<and>
     totalMessagesSent (users s' (msg_sender alice)) = 1 \<and>
     map messageId (getGeneralChatMessages s') = [0]"
    by (simp add: a getGeneralChatMessages_def alice_registered_profile)
  with ok show ?thesis
    by (intro exI [of _ s'] exI [of _ evs]) simp
qed

text \<open>
  Claim C3. For every storage, every hash function and all addresses \<open>a\<close> and \<open>b\<close>,
  \<open>getConversation(a, b)\<close> and \<open>getConversation(b, a)\<close> return the same list of
  direct messages.
\<close>

theorem getConversation_symmetric:
  "getConversation k s a b = getConversation k s b a"
  by (auto simp: getConversation_def conversationHash_def)

text \<open>
  Claim C4, as stated, fails: after alice has registered as "alice", her call
  \<open>changeUsername("alice")\<close> reverts with "Username is already taken", although she is
  registered, the name has 5 bytes and no different address claims it.
\<close>

theorem changeUsername_own_name_counterexample:
  "changeUsername alice ''alice''
     (run toy_hash [(alice, RegisterUser ''alice'' ''ref1'')] deploy) = Inl UsernameTaken \<and>
   username (users (run toy_hash [(alice, RegisterUser ''alice'' ''ref1'')] deploy)
     (msg_sender alice)) = ''alice'' \<and>
   \<not> spec_changeUsername_rejects
       (run toy_hash [(alice, RegisterUser ''alice'' ''ref1'')] deploy)
       (msg_sender alice) ''alice''"
  by (simp add: changeUsername_def spec_changeUsername_rejects_def alice_registered_profile
      alice_def [THEN arg_cong, of msg_sender, simplified])

text \<open>
  Claim C4, amended. \<open>changeUsername(u)\<close> reverts if and only if the caller is not
  registered, or \<open>u\<close> is empty or longer than 50 bytes, or \<open>u\<close> is claimed by any
  address, the caller's own included; and in every state reached from the constructor by
  transactions of nonzero senders, a registered caller who passes its own current
  username is rejected with "Username is already taken".
\<close>

theorem changeUsername_rejects_iff:
  assumes "list_all signed ts"
  shows "(isl (changeUsername e u s) \<longleftrightarrow>
            \<not> isRegistered (users s (msg_sender e)) \<or> length u = 0 \<or> 50 < length u \<or>
            \<not> isUsernameAvailable s u) \<and>
         (isRegistered (users (run k ts (constructor e0 f1 f2 f3)) (msg_sender e)) \<longrightarrow>
            changeUsername e
              (username (users (run k ts (constructor e0 f1 f2 f3)) (msg_sender e)))
              (run k ts (constructor e0 f1 f2 f3)) = Inl UsernameTaken)"
proof
  show "isl (changeUsername e u s) \<longleftrightarrow>
            \<not> isRegistered (users s (msg_sender e)) \<or> length u = 0 \<or> 50 < length u \<or>
            \<not> isUsernameAvailable s u"
    by (auto simp: changeUsername_def isUsernameAvailable_def Let_def)
next
  let ?s = "run k ts (constructor e0 f1 f2 f3)"
  show "isRegistered (users ?s (msg_sender e)) \<longrightarrow>
          changeUsername e (username (users ?s (msg_sender e))) ?s = Inl UsernameTaken"
  proof
    assume reg: "isRegistered (users ?s (msg_sender e))"
    with reachable_names_ok [OF assms, of k e0 f1 f2 f3]
    have "msg_sender e \<noteq> 0" "0 < length (username (users ?s (msg_sender e)))"
      "length (username (users ?s (msg_sender e))) \<le> 50"
      "usernameToAddress ?s (username (users ?s (msg_sender e))) = msg_sender e"
      by (auto simp: names_ok_def)
    with reg show "changeUsername e (username (users ?s (msg_sender e))) ?s = Inl UsernameTaken"
      by (simp add: changeUsername_def)
  qed
qed

theorem changeUsername_rejects_iff_witness:
  "list_all signed [(alice, RegisterUser ''alice'' ''ref1'')] \<and>
   isRegistered (users (run toy_hash [(alice, RegisterUser ''alice'' ''ref1'')] deploy)
     (msg_sender alice)) \<and>
   \<not> isUsernameAvailable (run toy_hash [(alice, RegisterUser ''alice'' ''ref1'')] deploy) ''alice'' \<and>
   isl (changeUsername alice ''alice''
     (run toy_hash [(alice, RegisterUser ''alice'' ''ref1'')] deploy)) \<and>
   changeUsername alice
     (username (users (run toy_hash [(alice, RegisterUser ''alice'' ''ref1'')] deploy)
        (msg_sender alice)))
     (run toy_hash [(alice, RegisterUser ''alice'' ''ref1'')] deploy) = Inl UsernameTaken"
proof -
  let ?ts = "[(alice, RegisterUser ''alice'' ''ref1'')]"
  let ?s = "run toy_hash ?ts deploy"
  have a: "msg_sender alice = 1" by (simp add: alice_def)
  have h: "list_all signed ?ts" by (simp add: signed_def a)
  have reg: "isRegistered (users ?s (msg_sender alice))"
    by (simp add: a alice_registered_profile)
  have taken: "\<not> isUsernameAvailable ?s ''alice''"
    by (simp add: isUsernameAvailable_def alice_registered_profile)
  note inst = changeUsername_rejects_iff [OF h, where e = alice and u = "''alice''"
      and s = ?s and k = toy_hash
      and ?e0.0 = "\<lparr>msg_sender = 9, block_timestamp = 100\<rparr>" and ?f1.0 = 11 and ?f2.0 = 12
      and ?f3.0 = 13, folded deploy_def]
  from inst reg taken h show ?thesis by blast
qed

text \<open>
  Claim C5 says that after the first direct message between \<open>a\<close> and \<open>b\<close> each of
  them is in the partner list of the other exactly once, \<open>a = b\<close> included. For two
  different addresses this is lemma \<open>distinct_partners_listed_once\<close>. For \<open>a = b\<close>
  the contract does otherwise: on the run where alice registers and then sends herself
  one direct message, her address is in her own partner list twice.
\<close>

theorem self_message_listed_twice:
  "count_list (getUserConversations (run toy_hash self_message_trace deploy) 1) 1 = 2"
  by (simp add: demo_defs op_defs Let_def getUserConversations_def)

text \<open>
  Claim C6. A call that reverts, whichever function it calls, leaves the whole storage as
  it was. Every \<open>require\<close> of the contract, in a modifier or in a body, comes before
  the first write of its function: when one fails, the storage at that very point is
  still the storage before the call, and no event has been emitted. The arithmetic panic
  of a checked \<open>++\<close> is the one failure that follows writes; there, as for every
  error, the transaction commits nothing. In particular a \<open>sendMessage\<close> with 1001
  bytes of content reverts (with "Message too long" when the sender is registered)
  before any write, and leaves the general channel, the sender's \<open>totalMessagesSent\<close>
  and \<open>totalMessages\<close> unchanged.
\<close>

theorem rejected_call_leaves_storage:
  "execute k t s = commit (stmts k t s) \<and>
   (halted (stmts k t s) = Some err \<and> err \<noteq> PanicOverflow \<longrightarrow>
      storage (stmts k t s) = s \<and> emitted (stmts k t s) = []) \<and>
   (execute k t s = Inl err \<longrightarrow> transact k t s = s) \<and>
   (length c = 1001 \<longrightarrow>
      (\<exists>err. sendMessage e c s = Inl err) \<and>
      (isRegistered (users s (msg_sender e)) \<longrightarrow> sendMessage e c s = Inl MessageTooLong) \<and>
      storage (sendMessage_stmts e c s) = s \<and>
      getGeneralChatMessages (transact k (e, SendMessage c) s) = getGeneralChatMessages s \<and>
      totalMessagesSent (users (transact k (e, SendMessage c) s) (msg_sender e)) =
        totalMessagesSent (users s (msg_sender e)) \<and>
      totalMessages (transact k (e, SendMessage c) s) = totalMessages s)"
proof (intro conjI)
  show "execute k t s = commit (stmts k t s)"
    by (cases t) (simp only: execute_commit)
  show "halted (stmts k t s) = Some err \<and> err \<noteq> PanicOverflow \<longrightarrow>
      storage (stmts k t s) = s \<and> emitted (stmts k t s) = []"
    by (cases t) (auto dest: require_failure_before_writes)
  show "execute k t s = Inl err \<longrightarrow> transact k t s = s"
    by (simp add: transact_def)
  show "length c = 1001 \<longrightarrow>
      (\<exists>err. sendMessage e c s = Inl err) \<and>
      (isRegistered (users s (msg_sender e)) \<longrightarrow> sendMessage e c s = Inl MessageTooLong) \<and>
      storage (sendMessage_stmts e c s) = s \<and>
      getGeneralChatMessages (transact k (e, SendMessage c) s) = getGeneralChatMessages s \<and>
      totalMessagesSent (users (transact k (e, SendMessage c) s) (msg_sender e)) =
        totalMessagesSent (users s (msg_sender e)) \<and>
      totalMessages (transact k (e, SendMessage c) s) = totalMessages s"
    by (auto simp: transact_def sendMessage_def sendMessage_stmts_def stmt_simps Let_def)
qed

theorem rejected_call_leaves_storage_witness:
  "halted (stmts toy_hash (alice, SendMessage (replicate 1001 CHR ''x''))
     (transact toy_hash (alice, RegisterUser ''alice'' ''ref1'') deploy)) = Some MessageTooLong \<and>
   MessageTooLong \<noteq> PanicOverflow \<and>
   execute toy_hash (alice, SendMessage (replicate 1001 CHR ''x''))
     (transact toy_hash (alice, RegisterUser ''alice'' ''ref1'') deploy) = Inl MessageTooLong \<and>
   length (replicate 1001 CHR ''x'') = 1001 \<and>
   isRegistered (users (transact toy_hash (alice, RegisterUser ''alice'' ''ref1'') deploy)
     (msg_sender alice)) \<and>
   storage (stmts toy_hash (alice, SendMessage (replicate 1001 CHR ''x''))
     (transact toy_hash (alice, RegisterUser ''alice'' ''ref1'') deploy)) =
     transact toy_hash (alice, RegisterUser ''alice'' ''ref1'') deploy \<and>
   transact toy_hash (alice, SendMessage (replicate 1001 CHR ''x''))
     (transact toy_hash (alice, RegisterUser ''alice'' ''ref1'') deploy) =
     transact toy_hash (alice, RegisterUser ''alice'' ''ref1'') deploy \<and>
   getGeneralChatMessages (transact toy_hash (alice, SendMessage (replicate 1001 CHR ''x''))
     (transact toy_hash (alice, RegisterUser ''alice'' ''ref1'') deploy)) = []"
proof -
  let ?s = "transact toy_hash (alice, RegisterUser ''alice'' ''ref1'') deploy"
  let ?c = "replicate 1001 CHR ''x''"
  have a: "msg_sender alice = 1" by (simp add: alice_def)
  have len: "length ?c = 1001" by simp
  have reg: "isRegistered (users ?s (msg_sender alice))"
    by (simp add: a alice_registered_profile)
  have halt: "halted (stmts toy_hash (alice, SendMessage ?c) ?s) = Some MessageTooLong"
    using reg by (simp add: sendMessage_stmts_def stmt_simps Let_def)
  have rej: "execute toy_hash (alice, SendMessage ?c) ?s = Inl MessageTooLong"
    by (simp add: sendMessage_def a alice_registered_profile)
  have old: "getGeneralChatMessages ?s = []"
    by (simp add: getGeneralChatMessages_def alice_registered_profile)
  note inst = rejected_call_leaves_storage [of toy_hash "(alice, SendMessage ?c)" ?s
      MessageTooLong ?c alice]
  from inst halt rej len reg old show ?thesis by simp
qed

text \<open>
  Claim C7. In every state reached from the constructor by transactions of nonzero
  senders, when \<open>changeUsername(newName)\<close> returns, the caller's old name was claimed and
  the new name was available before the call, and after it the old name is available,
  the new name is claimed by the caller, and the caller's profile carries the new name.
  The call is one transaction: its result is the storage before or the storage after,
  and no storage in between is ever committed.
\<close>

theorem changeUsername_releases_old_claims_new:
  assumes "list_all signed ts"
    and "changeUsername e newName (run k ts (constructor e0 f1 f2 f3)) = Inr (s', evs)"
  shows "\<not> isUsernameAvailable (run k ts (constructor e0 f1 f2 f3))
             (username (users (run k ts (constructor e0 f1 f2 f3)) (msg_sender e))) \<and>
         isUsernameAvailable (run k ts (constructor e0 f1 f2 f3)) newName \<and>
         isUsernameAvailable s'
             (username (users (run k ts (constructor e0 f1 f2 f3)) (msg_sender e))) \<and>
         \<not> isUsernameAvailable s' newName \<and>
         usernameToAddress s' newName = msg_sender e \<and>
         username (users s' (msg_sender e)) = newName"
proof -
  let ?s = "run k ts (constructor e0 f1 f2 f3)"
  let ?old = "username (users ?s (msg_sender e))"
  note eff = changeUsername_effect [OF assms(2)]
  from reachable_names_ok [OF assms(1)] eff(1)
  have a0: "msg_sender e \<noteq> 0" and own: "usernameToAddress ?s ?old = msg_sender e"
    by (auto simp: names_ok_def)
  from own a0 eff(2) have diff: "?old \<noteq> newName" by auto
  show ?thesis
    using a0 own diff eff by (simp add: isUsernameAvailable_def)
qed

theorem changeUsername_releases_old_claims_new_witness:
  "list_all signed [(alice, RegisterUser ''alice'' ''ref1'')] \<and>
   (\<exists>s' evs. changeUsername alice ''al''
        (run toy_hash [(alice, RegisterUser ''alice'' ''ref1'')] deploy) = Inr (s', evs) \<and>
      isUsernameAvailable s' ''alice'' \<and> \<not> isUsernameAvailable s' ''al'' \<and>
      username (users s' (msg_sender alice)) = ''al'')"
proof -
  let ?ts = "[(alice, RegisterUser ''alice'' ''ref1'')]"
  let ?s = "run toy_hash ?ts deploy"
  have a: "msg_sender alice = 1" by (simp add: alice_def)
  have s: "?s = transact toy_hash (alice, RegisterUser ''alice'' ''ref1'') deploy" by simp
  have h: "list_all signed ?ts" by (simp add: signed_def a)
  have "\<exists>s' evs. changeUsername alice ''al'' ?s = Inr (s', evs)"
    unfolding s by (simp add: changeUsername_def a alice_registered_profile Let_def)
  then obtain s' evs where ok: "changeUsername alice ''al'' ?s = Inr (s', evs)"
    by blast
  note inst = changeUsername_releases_old_claims_new [where k = toy_hash and ts = ?ts
      and e = alice and newName = "''al''" and ?s' = s' and evs = evs
      and ?e0.0 = "\<lparr>msg_sender = 9, block_timestamp = 100\<rparr>" and ?f1.0 = 11 and ?f2.0 = 12
      and ?f3.0 = 13, folded deploy_def, OF h ok]
  from inst have "isUsernameAvailable s' ''alice'' \<and> \<not> isUsernameAvailable s' ''al'' \<and>
      username (users s' (msg_sender alice)) = ''al''"
    by (simp add: a alice_registered_profile)
  with ok h show ?thesis
    by (intro conjI exI [of _ s'] exI [of _ evs]) simp_all
qed

text \<open>
  Claim C8. In every state reached from the constructor by any list of transactions,
  \<open>totalUsers\<close> is the length of \<open>registeredUsers\<close> and \<open>totalMessages\<close> is the
  length of \<open>generalChatMessages\<close>, and a single transaction applied to any state in
  which both equalities hold gives a state in which both hold.
\<close>

theorem counters_equal_array_lengths:
  "totalUsers (run k ts (constructor e f1 f2 f3)) =
     length (registeredUsers (run k ts (constructor e f1 f2 f3))) \<and>
   totalMessages (run k ts (constructor e f1 f2 f3)) =
     length (generalChatMessages (run k ts (constructor e f1 f2 f3))) \<and>
   (totalUsers s = length (registeredUsers s) \<and>
    totalMessages s = length (generalChatMessages s) \<longrightarrow>
    totalUsers (transact k t s) = length (registeredUsers (transact k t s)) \<and>
    totalMessages (transact k t s) = length (generalChatMessages (transact k t s)))"
proof -
  have "counters_ok (run k ts (constructor e f1 f2 f3))"
    by (rule run_counters_ok) (rule constructor_counters_ok)
  moreover have "counters_ok s \<longrightarrow> counters_ok (transact k t s)"
  proof
    assume "counters_ok s"
    then show "counters_ok (transact k t s)"
      by (cases t) (auto intro: transact_invariant [of counters_ok] execute_counters_ok)
  qed
  ultimately show ?thesis by (simp add: counters_ok_def)
qed

theorem counters_equal_array_lengths_witness:
  "totalUsers (run toy_hash scenario deploy) =
     length (registeredUsers (run toy_hash scenario deploy)) \<and>
   totalMessages (run toy_hash scenario deploy) =
     length (generalChatMessages (run toy_hash scenario deploy)) \<and>
   totalUsers deploy = length (registeredUsers deploy) \<and>
   totalMessages deploy = length (generalChatMessages deploy) \<and>
   totalUsers (transact toy_hash (alice, RegisterUser ''alice'' ''ref1'') deploy) =
     length (registeredUsers (transact toy_hash (alice, RegisterUser ''alice'' ''ref1'') deploy)) \<and>
   totalUsers (transact toy_hash (alice, RegisterUser ''alice'' ''ref1'') deploy) = 1"
proof -
  have pre: "totalUsers deploy = length (registeredUsers deploy) \<and>
             totalMessages deploy = length (generalChatMessages deploy)"
    by (simp add: deploy_def constructor_def)
  have one: "totalUsers (transact toy_hash (alice, RegisterUser ''alice'' ''ref1'') deploy) = 1"
    by (simp add: demo_defs op_defs Let_def)
  note inst = counters_equal_array_lengths [of toy_hash scenario
      "\<lparr>msg_sender = 9, block_timestamp = 100\<rparr>" 11 12 13 deploy
      "(alice, RegisterUser ''alice'' ''ref1'')", folded deploy_def]
  from inst pre one show ?thesis by blast
qed

text \<open>
  Claim C9. In every state reached from the constructor, for all addresses \<open>a\<close> and
  \<open>b\<close>, \<open>b\<close> occurs in \<open>userConversations[a]\<close> as many times as \<open>a\<close> occurs in
  \<open>userConversations[b]\<close>; hence \<open>isInConversation\<close>, which scans only the list of its
  first argument, gives the same answer in both directions.
\<close>

theorem partner_lists_symmetric:
  "count_list (userConversations (run k ts (constructor e f1 f2 f3)) a) b =
     count_list (userConversations (run k ts (constructor e f1 f2 f3)) b) a \<and>
   isInConversation (run k ts (constructor e f1 f2 f3)) a b =
     isInConversation (run k ts (constructor e f1 f2 f3)) b a"
proof -
  let ?s = "run k ts (constructor e f1 f2 f3)"
  have "partners_ok ?s"
    using constructor_partners by (auto intro: run_partners_ok)
  then have sym: "count_list (userConversations ?s a) b = count_list (userConversations ?s b) a"
    by (simp add: partners_ok_def)
  have "(b \<in> set (userConversations ?s a)) = (count_list (userConversations ?s a) b \<noteq> 0)"
    by (simp add: count_list_0_iff)
  also have "\<dots> = (count_list (userConversations ?s b) a \<noteq> 0)"
    by (simp only: sym)
  also have "\<dots> = (a \<in> set (userConversations ?s b))"
    by (simp add: count_list_0_iff)
  finally show ?thesis
    using sym by (simp add: isInConversation_def scan_partners_set)
qed

theorem partner_lists_symmetric_witness:
  "count_list (userConversations (run toy_hash chat_trace deploy) 1) 2 = 1 \<and>
   count_list (userConversations (run toy_hash chat_trace deploy) 2) 1 = 1 \<and>
   isInConversation (run toy_hash chat_trace deploy) 1 2 \<and>
   isInConversation (run toy_hash chat_trace deploy) 2 1"
proof -
  have one: "count_list (userConversations (run toy_hash chat_trace deploy) 1) 2 = 1"
    and inc: "isInConversation (run toy_hash chat_trace deploy) 1 2"
    by (simp_all add: chat_trace_partners isInConversation_def)
  note inst = partner_lists_symmetric [of toy_hash chat_trace
      "\<lparr>msg_sender = 9, block_timestamp = 100\<rparr>" 11 12 13 1 2, folded deploy_def]
  from inst one inc show ?thesis by simp
qed

text \<open>
  Claim C10. When a registered address sends itself a direct message with valid content
  while \<open>isInConversation(a, a)\<close> is false, the call returns and has appended the address
  to its own partner list twice, so it occurs there exactly twice afterwards.
\<close>

theorem self_message_appends_twice:
  assumes "isRegistered (users s (msg_sender e))"
    and "0 < length c" and "length c \<le> 1000"
    and "\<not> isInConversation s (msg_sender e) (msg_sender e)"
  shows "\<exists>s' evs. sendDirectMessage k e (msg_sender e) c s = Inr (s', evs) \<and>
           getUserConversations s' (msg_sender e) =
             getUserConversations s (msg_sender e) @ [msg_sender e, msg_sender e] \<and>
           count_list (getUserConversations s' (msg_sender e)) (msg_sender e) = 2"
proof -
  from assms(4) have "msg_sender e \<notin> set (userConversations s (msg_sender e))"
    by (simp add: isInConversation_def scan_partners_set)
  with assms show ?thesis
    by (simp add: sendDirectMessage_def Let_def isInConversation_def scan_partners_set
        getUserConversations_def)
qed

theorem self_message_appends_twice_witness:
  "isRegistered (users (transact toy_hash (alice, RegisterUser ''alice'' ''ref1'') deploy)
     (msg_sender alice)) \<and>
   0 < length ''note to self'' \<and> length ''note to self'' \<le> 1000 \<and>
   \<not> isInConversation (transact toy_hash (alice, RegisterUser ''alice'' ''ref1'') deploy)
       (msg_sender alice) (msg_sender alice) \<and>
   (\<exists>s' evs. sendDirectMessage toy_hash alice (msg_sender alice) ''note to self''
        (transact toy_hash (alice, RegisterUser ''alice'' ''ref1'') deploy) = Inr (s', evs) \<and>
      getUserConversations s' (msg_sender alice) = [1, 1] \<and>
      count_list (getUserConversations s' (msg_sender alice)) (msg_sender alice) = 2)"
proof -
  let ?s = "transact toy_hash (alice, RegisterUser ''alice'' ''ref1'') deploy"
  have a: "msg_sender alice = 1" by (simp add: alice_def)
  have h1: "isRegistered (users ?s (msg_sender alice))"
    by (simp add: a alice_registered_profile)
  have h2: "0 < length ''note to self''" and h3: "length ''note to self'' \<le> 1000"
    by simp_all
  have h4: "\<not> isInConversation ?s (msg_sender alice) (msg_sender alice)"
    by (simp add: a isInConversation_def alice_registered_profile)
  have old: "getUserConversations ?s 1 = []"
    by (simp add: getUserConversations_def alice_registered_profile)
  from self_message_appends_twice [OF h1 h2 h3 h4, of toy_hash] h1 h2 h3 h4
  show ?thesis by (simp add: old a)
qed

end
